theory Spec2Isabelle
  imports Complex_Main
begin

section \<open>Floating-point values as the program sees them\<close>

text \<open>
  The program computes on pandas columns of dtype float64 and on Python floats. A value is
  a finite number, the negative zero, one of the two infinities, or NaN (which pandas
  uses as its marker of a missing value). Finite arithmetic is taken exact (a finite value
  carries a real number; rounding to 53 bits, overflow and underflow are not modelled);
  the special values follow IEEE 754 as numpy applies it: division by a zero gives an
  infinity whose sign is the product of the signs, zero over zero is NaN, and every
  comparison with NaN is false. \<open>Fin 0\<close> is the positive zero.
\<close>

datatype pyfloat = Fin real | NegZero | PosInf | NegInf | NaN

fun isnan :: "pyfloat \<Rightarrow> bool" where
  "isnan NaN = True"
| "isnan _ = False"

fun isinf :: "pyfloat \<Rightarrow> bool" where
  "isinf PosInf = True"
| "isinf NegInf = True"
| "isinf _ = False"

fun iszero :: "pyfloat \<Rightarrow> bool" where
  "iszero (Fin x) = (x = 0)"
| "iszero NegZero = True"
| "iszero _ = False"

text \<open>The sign bit: set for negative numbers, the negative zero and minus infinity.\<close>

fun signbit :: "pyfloat \<Rightarrow> bool" where
  "signbit (Fin x) = (x < 0)"
| "signbit NegZero = True"
| "signbit NegInf = True"
| "signbit _ = False"

text \<open>The number a finite value stands for (both zeros stand for 0).\<close>

fun valof :: "pyfloat \<Rightarrow> real" where
  "valof (Fin x) = x"
| "valof _ = 0"

definition zero_signed :: "bool \<Rightarrow> pyfloat" where
  "zero_signed s = (if s then NegZero else Fin 0)"

definition inf_signed :: "bool \<Rightarrow> pyfloat" where
  "inf_signed s = (if s then NegInf else PosInf)"

fun f_neg :: "pyfloat \<Rightarrow> pyfloat" where
  "f_neg (Fin x) = (if x = 0 then NegZero else Fin (- x))"
| "f_neg NegZero = Fin 0"
| "f_neg PosInf = NegInf"
| "f_neg NegInf = PosInf"
| "f_neg NaN = NaN"

definition f_add :: "pyfloat \<Rightarrow> pyfloat \<Rightarrow> pyfloat" where
  "f_add a b =
     (if isnan a \<or> isnan b \<or> (isinf a \<and> isinf b \<and> signbit a \<noteq> signbit b) then NaN
      else if isinf a then a
      else if isinf b then b
      else if a = NegZero \<and> b = NegZero then NegZero
      else Fin (valof a + valof b))"

definition f_sub :: "pyfloat \<Rightarrow> pyfloat \<Rightarrow> pyfloat" where
  "f_sub a b = f_add a (f_neg b)"

definition f_div :: "pyfloat \<Rightarrow> pyfloat \<Rightarrow> pyfloat" where
  "f_div a b =
     (if isnan a \<or> isnan b \<or> (iszero a \<and> iszero b) \<or> (isinf a \<and> isinf b) then NaN
      else if isinf a \<or> iszero b then inf_signed (signbit a \<noteq> signbit b)
      else if isinf b \<or> iszero a then zero_signed (signbit a \<noteq> signbit b)
      else Fin (valof a / valof b))"

text \<open>\<open>a > b\<close> and \<open>a < b\<close> on floats: false as soon as one side is NaN.\<close>

definition f_gt :: "pyfloat \<Rightarrow> pyfloat \<Rightarrow> bool" where
  "f_gt a b =
     (if isnan a \<or> isnan b then False
      else if a = PosInf then b \<noteq> PosInf
      else if b = NegInf then a \<noteq> NegInf
      else if a = NegInf \<or> b = PosInf then False
      else valof a > valof b)"

definition f_lt :: "pyfloat \<Rightarrow> pyfloat \<Rightarrow> bool" where
  "f_lt a b = f_gt b a"

text \<open>
  Python's \<open>round(x, 2)\<close> on a float: to the nearest multiple of 1/100, a tie going to the
  even neighbour; a result of zero keeps the sign of \<open>x\<close>; NaN and the infinities are
  returned as they are.
\<close>

definition round_half_even :: "real \<Rightarrow> int" where
  "round_half_even y =
     (let f = \<lfloor>y\<rfloor>; d = y - of_int f
      in if d < 1 / 2 then f else if 1 / 2 < d then f + 1 else if even f then f else f + 1)"

fun py_round2 :: "pyfloat \<Rightarrow> pyfloat" where
  "py_round2 (Fin x) =
     (let r = round_half_even (x * 100)
      in if r = 0 \<and> x < 0 then NegZero else Fin (of_int r / 100))"
| "py_round2 v = v"

section \<open>The RSI computation\<close>

text \<open>
  \<open>Series.diff()\<close>: the first entry has no predecessor and is NaN; entry \<open>i\<close> is
  \<open>close[i] - close[i-1]\<close>.
\<close>

definition diff :: "real list \<Rightarrow> pyfloat list" where
  "diff cs = (case cs of [] \<Rightarrow> []
              | _ # rest \<Rightarrow> NaN # map2 (\<lambda>prev cur. f_sub (Fin cur) (Fin prev)) cs rest)"

text \<open>
  \<open>delta.where(delta > 0, 0)\<close> keeps an entry where the condition holds and puts 0
  elsewhere; the condition is false on NaN, so the first entry becomes 0.
\<close>

definition where_gt0 :: "pyfloat list \<Rightarrow> pyfloat list" where
  "where_gt0 delta = map (\<lambda>d. if f_gt d (Fin 0) then d else Fin 0) delta"

definition where_lt0 :: "pyfloat list \<Rightarrow> pyfloat list" where
  "where_lt0 delta = map (\<lambda>d. if f_lt d (Fin 0) then d else Fin 0) delta"

text \<open>
  \<open>rolling(window=w).mean()\<close> with the default \<open>min_periods = w\<close>: entry \<open>i\<close> is the mean
  of the \<open>w\<close> entries ending at \<open>i\<close>, and NaN when fewer than \<open>w\<close> entries are there or one
  of them is NaN (the sum then is NaN). An empty window (\<open>w = 0\<close>) gives NaN as 0/0.
  pandas keeps a running sum along the column; each window is summed afresh here, which
  is the same number in exact arithmetic.
\<close>

definition window_at :: "nat \<Rightarrow> 'a list \<Rightarrow> nat \<Rightarrow> 'a list" where
  "window_at w xs i = take w (drop (i + 1 - w) xs)"

definition rolling_mean :: "nat \<Rightarrow> pyfloat list \<Rightarrow> pyfloat list" where
  "rolling_mean w xs =
     map (\<lambda>i. if i + 1 < w then NaN
              else f_div (foldl f_add (Fin 0) (window_at w xs i)) (Fin (real w)))
         [0..<length xs]"

definition avg_gain :: "real list \<Rightarrow> nat \<Rightarrow> pyfloat list" where
  "avg_gain cs w = rolling_mean w (where_gt0 (diff cs))"

definition avg_loss :: "real list \<Rightarrow> nat \<Rightarrow> pyfloat list" where
  "avg_loss cs w = map f_neg (rolling_mean w (where_lt0 (diff cs)))"

definition rsi_of_rs :: "pyfloat \<Rightarrow> pyfloat" where
  "rsi_of_rs rs = f_sub (Fin 100) (f_div (Fin 100) (f_add (Fin 1) rs))"

definition calculate_rsi :: "real list \<Rightarrow> nat \<Rightarrow> pyfloat list" where
  "calculate_rsi cs w =
     (let gain = avg_gain cs w;
          loss = avg_loss cs w;
          rs = map2 f_div gain loss
      in map rsi_of_rs rs)"

section \<open>Evaluating one symbol\<close>

text \<open>
  What a statement of the program may raise. \<open>except Exception\<close> catches the instances of
  \<open>Exception\<close> (the errors of the provider, of pandas and of Python's conversions among
  them) and lets through what derives from \<open>BaseException\<close> only, such as
  \<open>KeyboardInterrupt\<close> and \<open>SystemExit\<close>. The string is the text of the exception.
\<close>

datatype py_exception = Exception string | BaseOnly string

text \<open>
  A daily bar as the data provider returns it; the program reads the columns \<open>Close\<close> and
  \<open>Volume\<close> only. A frame is either of the layout the program expects, given by its rows,
  oldest first, or one of \<open>n\<close> rows from which the program cannot read its numbers (no
  column \<open>Close\<close>, hierarchical columns, cells that are no numbers): on such a frame the
  statements after the check of the number of rows raise the given exception.
\<close>

record bar =
  Close :: real
  Volume :: real

datatype frame = Rows "bar list" | Unreadable nat py_exception

fun frame_len :: "frame \<Rightarrow> nat" where
  "frame_len (Rows bars) = length bars"
| "frame_len (Unreadable n e) = n"

text \<open>
  The provider call \<open>yf.download(symbol, start, end)\<close> is outside the program: it is a
  parameter, giving for a symbol either the exception it raised (\<open>Inl\<close>) or the data
  frame it returned (\<open>Inr\<close>).
\<close>

type_synonym provider = "string \<Rightarrow> py_exception + frame"

text \<open>
  The verdict strings of the program: "Strong Buy", "Not a strong buy",
  "Skipped - insufficient data" and "Skipped - error fetching data (e)".
\<close>

datatype verdict = StrongBuy | NotStrongBuy | SkippedInsufficientData | SkippedFetchError string

type_synonym evaluation =
  "string \<times> pyfloat option \<times> pyfloat option \<times> bool option \<times> bool option \<times> verdict"

definition verdict_of :: "evaluation \<Rightarrow> verdict" where
  "verdict_of r = (case r of (name, price, rsi, price_up, volume_up, v) \<Rightarrow> v)"

definition rsi_of :: "evaluation \<Rightarrow> pyfloat option" where
  "rsi_of r = (case r of (name, price, rsi, price_up, volume_up, v) \<Rightarrow> rsi)"

definition price_of :: "evaluation \<Rightarrow> pyfloat option" where
  "price_of r = (case r of (name, price, rsi, price_up, volume_up, v) \<Rightarrow> price)"

text \<open>Sequencing of steps that may raise: the first exception ends the \<open>try\<close> block.\<close>

definition and_then :: "py_exception + 'a \<Rightarrow> ('a \<Rightarrow> py_exception + 'b) \<Rightarrow> py_exception + 'b" where
  "and_then m f = (case m of Inl e \<Rightarrow> Inl e | Inr x \<Rightarrow> f x)"

text \<open>\<open>.iloc[-k]\<close>: the \<open>k\<close>-th entry from the end; IndexError when there is none.\<close>

definition iloc_neg :: "'a list \<Rightarrow> nat \<Rightarrow> py_exception + 'a" where
  "iloc_neg xs k =
     (if 1 \<le> k \<and> k \<le> length xs then Inr (xs ! (length xs - k))
      else Inl (Exception ''single positional indexer is out-of-bounds''))"

text \<open>
  The body of the \<open>try\<close> block of \<open>evaluate_stock\<close>: the fetch, the check of the number
  of rows, and the computation on the rows.
\<close>

definition evaluate_body :: "provider \<Rightarrow> string \<Rightarrow> real \<Rightarrow> py_exception + evaluation" where
  "evaluate_body yf_download symbol rsi_threshold =
     and_then (yf_download symbol) (\<lambda>stock_data.
       if frame_len stock_data = 0 \<or> frame_len stock_data < 15
       then Inr (symbol, None, None, None, None, SkippedInsufficientData)
       else
         (case stock_data of
            Unreadable n e \<Rightarrow> Inl e
          | Rows bars \<Rightarrow>
              and_then (iloc_neg (calculate_rsi (map Close bars) 14) 1) (\<lambda>rsi_today.
              and_then (iloc_neg (map (Fin \<circ> Close) bars) 1) (\<lambda>price_today.
              and_then (iloc_neg (map (Fin \<circ> Close) bars) 2) (\<lambda>price_yesterday.
              and_then (iloc_neg (map (Fin \<circ> Volume) bars) 1) (\<lambda>volume_today.
              and_then (iloc_neg (map (Fin \<circ> Volume) bars) 2) (\<lambda>volume_yesterday.
                let price_up = f_gt price_today price_yesterday;
                    volume_up = f_gt volume_today volume_yesterday;
                    v = (if f_gt rsi_today (Fin rsi_threshold) \<and> price_up \<and> volume_up
                         then StrongBuy else NotStrongBuy)
                in Inr (symbol, Some (py_round2 price_today), Some (py_round2 rsi_today),
                        Some price_up, Some volume_up, v))))))))"

text \<open>
  \<open>except Exception as e\<close>: an instance of \<open>Exception\<close> raised by the body becomes a skipped
  result that carries its text; any other exception leaves \<open>evaluate_stock\<close> (\<open>Inl\<close>).
\<close>

definition evaluate_stock :: "provider \<Rightarrow> string \<Rightarrow> real \<Rightarrow> py_exception + evaluation" where
  "evaluate_stock yf_download symbol rsi_threshold =
     (case evaluate_body yf_download symbol rsi_threshold of
        Inl (Exception e) \<Rightarrow> Inr (symbol, None, None, None, None, SkippedFetchError e)
      | Inl (BaseOnly e) \<Rightarrow> Inl (BaseOnly e)
      | Inr r \<Rightarrow> Inr r)"

section \<open>The run over all symbols and the CSV export\<close>

text \<open>What the page shows for one symbol: the skip reason, or the metrics and the verdict.\<close>

datatype panel =
    Warning verdict
  | Analysis "pyfloat option" "pyfloat option" "bool option" "bool option" verdict

fun is_skipped :: "verdict \<Rightarrow> bool" where
  "is_skipped SkippedInsufficientData = True"
| "is_skipped (SkippedFetchError e) = True"
| "is_skipped _ = False"

type_synonym strong_buy_row = "string \<times> pyfloat option \<times> pyfloat option"

definition panel_of :: "evaluation \<Rightarrow> panel" where
  "panel_of r = (case r of (name, price, rsi, price_up, volume_up, v) \<Rightarrow>
     if is_skipped v then Warning v else Analysis price rsi price_up volume_up v)"

text \<open>
  The loop of \<open>main\<close> over the symbols; its state is the panels shown so far and
  \<open>strong_buy_data\<close>, both appended to in the order of the symbols. The loop has no handler
  of its own: an exception that leaves \<open>evaluate_stock\<close> ends it.
\<close>

fun main_loop :: "provider \<Rightarrow> real \<Rightarrow> string list \<Rightarrow>
    (string \<times> panel) list \<times> strong_buy_row list \<Rightarrow>
    py_exception + (string \<times> panel) list \<times> strong_buy_row list" where
  "main_loop yf_download rsi_threshold [] st = Inr st"
| "main_loop yf_download rsi_threshold (symbol # rest) (panels, strong_buy_data) =
     (case evaluate_stock yf_download symbol rsi_threshold of
        Inl e \<Rightarrow> Inl e
      | Inr (name, price, rsi, price_up, volume_up, v) \<Rightarrow>
          if is_skipped v
          then main_loop yf_download rsi_threshold rest
                 (panels @ [(symbol, Warning v)], strong_buy_data)
          else main_loop yf_download rsi_threshold rest
                 (panels @ [(symbol, Analysis price rsi price_up volume_up v)],
                  if v = StrongBuy then strong_buy_data @ [(symbol, price, rsi)]
                  else strong_buy_data))"

text \<open>
  \<open>DataFrame.to_csv\<close> on the frame built from \<open>strong_buy_data\<close> (columns Symbol, Price,
  RSI), as a list of lines. With \<open>index=True\<close> pandas writes the row number as a first
  column under an empty header; the program passes \<open>index=False\<close>. A text cell is quoted
  when it holds the separator, a quote or a line feed; whether a carriage return forces
  the quotes depends on the version of Python's csv writer and on the line terminator,
  and is the parameter \<open>quote_cr\<close>. How a number cell is printed is left to the
  parameter \<open>fmt\<close>.
\<close>

definition needs_quote :: "bool \<Rightarrow> string \<Rightarrow> bool" where
  "needs_quote quote_cr s =
     list_ex (\<lambda>c. c = CHR '','' \<or> c = CHR 0x22 \<or> c = CHR 0x0A \<or> (quote_cr \<and> c = CHR 0x0D)) s"

definition csv_field :: "bool \<Rightarrow> string \<Rightarrow> string" where
  "csv_field quote_cr s =
     (if needs_quote quote_cr s
      then [CHR 0x22] @ concat (map (\<lambda>c. if c = CHR 0x22 then [c, c] else [c]) s) @ [CHR 0x22]
      else s)"

fun join_cells :: "string list \<Rightarrow> string" where
  "join_cells [] = []"
| "join_cells [c] = c"
| "join_cells (c # cs) = c @ '','' @ join_cells cs"

fun digit_char :: "nat \<Rightarrow> char" where
  "digit_char n = char_of (48 + n mod 10)"

fun show_nat :: "nat \<Rightarrow> string" where
  "show_nat n = (if n < 10 then [digit_char n] else show_nat (n div 10) @ [digit_char n])"

definition row_cells :: "bool \<Rightarrow> (pyfloat option \<Rightarrow> string) \<Rightarrow> strong_buy_row \<Rightarrow> string list" where
  "row_cells quote_cr fmt r =
     (case r of (symbol, price, rsi) \<Rightarrow> [csv_field quote_cr symbol, fmt price, fmt rsi])"

definition to_csv ::
    "bool \<Rightarrow> bool \<Rightarrow> (pyfloat option \<Rightarrow> string) \<Rightarrow> strong_buy_row list \<Rightarrow> string list" where
  "to_csv index quote_cr fmt df =
     (let header = map (csv_field quote_cr) [''Symbol'', ''Price'', ''RSI''];
          rows = map (row_cells quote_cr fmt) df
      in if index
         then join_cells ([] # header) #
              map (\<lambda>(i, cells). join_cells (show_nat i # cells)) (zip [0..<length rows] rows)
         else join_cells header # map join_cells rows)"

text \<open>
  \<open>main\<close>: a failure to load the symbol list (caught by \<open>except Exception\<close> too) ends the
  run before any evaluation; otherwise every symbol is evaluated and the CSV is offered
  when there is a strong buy. \<open>Inl\<close> is an exception that leaves \<open>main\<close>.
\<close>

datatype run_outcome =
    LoadError string
  | Finished "(string \<times> panel) list" "strong_buy_row list" "string list option"

definition main :: "py_exception + string list \<Rightarrow> provider \<Rightarrow> bool \<Rightarrow>
    (pyfloat option \<Rightarrow> string) \<Rightarrow> real \<Rightarrow> py_exception + run_outcome" where
  "main symbols_json yf_download quote_cr fmt rsi_threshold =
     (case symbols_json of
        Inl (Exception e) \<Rightarrow> Inr (LoadError e)
      | Inl (BaseOnly e) \<Rightarrow> Inl (BaseOnly e)
      | Inr symbols \<Rightarrow>
          (case main_loop yf_download rsi_threshold symbols ([], []) of
             Inl e \<Rightarrow> Inl e
           | Inr (panels, strong_buy_data) \<Rightarrow>
               Inr (Finished panels strong_buy_data
                 (if strong_buy_data \<noteq> []
                  then Some (to_csv False quote_cr fmt strong_buy_data) else None))))"

text \<open>
  Whether the evaluation of a symbol returns, and with a given verdict.
\<close>

definition returns_verdict :: "provider \<Rightarrow> real \<Rightarrow> string \<Rightarrow> verdict \<Rightarrow> bool" where
  "returns_verdict yf_download rsi_threshold symbol v =
     (case evaluate_stock yf_download symbol rsi_threshold of
        Inl e \<Rightarrow> False
      | Inr r \<Rightarrow> verdict_of r = v)"

section \<open>Sample inputs\<close>

text \<open>
  Concrete series on which the theorems below are instantiated: fifteen bars whose last
  fourteen deltas hold gains of 50001 and losses of 49999 in total (so that the last RSI
  is 50.001), fifteen equal bars, and a provider that serves them, raises an error for
  one symbol, is interrupted from the keyboard for another, returns twenty rows without
  the column \<open>Close\<close> for a third and has three bars only for every other symbol.
\<close>

definition bars_of :: "real list \<Rightarrow> bar list" where
  "bars_of cs = map (\<lambda>c. \<lparr>Close = c, Volume = c\<rparr>) cs"

definition sample_closes :: "real list" where
  "sample_closes = [50000, 1, 49990, 49991, 49992, 49993, 49994, 49995, 49996, 49997,
                    49998, 49999, 50000, 50001, 50002]"

definition flat_closes :: "real list" where
  "flat_closes = replicate 15 5"

definition sample_provider :: provider where
  "sample_provider s =
     (if s = ''AAA'' then Inr (Rows (bars_of sample_closes))
      else if s = ''BAD'' then Inl (Exception ''no data for symbol'')
      else if s = ''INT'' then Inl (BaseOnly ''KeyboardInterrupt'')
      else if s = ''ODD'' then Inr (Unreadable 20 (Exception ''Close''))
      else if s = ''FLAT'' then Inr (Rows (bars_of flat_closes))
      else Inr (Rows (bars_of [1, 2, 3])))"

section \<open>The gain and loss columns as real numbers\<close>

text \<open>
  On finite closing prices the two columns fed to the rolling means hold finite numbers
  only: entry 0 is the 0 that \<open>where\<close> puts in place of the NaN delta, entry \<open>i > 0\<close> is
  the positive part of the delta (for the gains) or its negative part (for the losses).
  \<open>gain_sum\<close> and \<open>loss_sum\<close> are the sums over the window of \<open>w\<close> entries ending at \<open>i\<close>.
\<close>

definition gain_raw :: "real list \<Rightarrow> nat \<Rightarrow> real" where
  "gain_raw cs i = (if i = 0 then 0 else max (cs ! i - cs ! (i - 1)) 0)"

definition loss_raw :: "real list \<Rightarrow> nat \<Rightarrow> real" where
  "loss_raw cs i = (if i = 0 then 0 else min (cs ! i - cs ! (i - 1)) 0)"

definition gain_sum :: "real list \<Rightarrow> nat \<Rightarrow> nat \<Rightarrow> real" where
  "gain_sum cs w i = (\<Sum>k\<leftarrow>[i + 1 - w..<i + 1]. gain_raw cs k)"

definition loss_sum :: "real list \<Rightarrow> nat \<Rightarrow> nat \<Rightarrow> real" where
  "loss_sum cs w i = (\<Sum>k\<leftarrow>[i + 1 - w..<i + 1]. loss_raw cs k)"

section \<open>Shape of the computed columns\<close>


lemma length_diff [simp]: "length (diff cs) = length cs"
  by (cases cs) (simp_all add: diff_def)

lemma length_rolling_mean [simp]: "length (rolling_mean w xs) = length xs"
  by (simp add: rolling_mean_def)

lemma length_avg_gain [simp]: "length (avg_gain cs w) = length cs"
  by (simp add: avg_gain_def where_gt0_def)

lemma length_avg_loss [simp]: "length (avg_loss cs w) = length cs"
  by (simp add: avg_loss_def where_lt0_def)

lemma length_calculate_rsi [simp]: "length (calculate_rsi cs w) = length cs"
  by (simp add: calculate_rsi_def Let_def)

lemma calculate_rsi_nth:
  "i < length cs \<Longrightarrow>
   calculate_rsi cs w ! i = rsi_of_rs (f_div (avg_gain cs w ! i) (avg_loss cs w ! i))"
  by (simp add: calculate_rsi_def Let_def)

lemma f_sub_Fin [simp]: "f_sub (Fin a) (Fin b) = Fin (a - b)"
  by (simp add: f_sub_def f_add_def)

lemma diff_nth_0: "cs \<noteq> [] \<Longrightarrow> diff cs ! 0 = NaN"
  by (cases cs) (simp_all add: diff_def)

lemma diff_nth_Suc: "Suc i < length cs \<Longrightarrow> diff cs ! Suc i = Fin (cs ! Suc i - cs ! i)"
  by (cases cs) (simp_all add: diff_def)

lemma where_gt0_diff_nth:
  "i < length cs \<Longrightarrow> where_gt0 (diff cs) ! i = Fin (gain_raw cs i)"
  by (cases i) (auto simp: where_gt0_def diff_nth_0 diff_nth_Suc gain_raw_def f_gt_def)

lemma where_lt0_diff_nth:
  "i < length cs \<Longrightarrow> where_lt0 (diff cs) ! i = Fin (loss_raw cs i)"
  by (cases i) (auto simp: where_lt0_def diff_nth_0 diff_nth_Suc loss_raw_def f_gt_def f_lt_def)

lemma where_gt0_diff: "where_gt0 (diff cs) = map (\<lambda>i. Fin (gain_raw cs i)) [0..<length cs]"
proof (rule nth_equalityI)
  show "length (where_gt0 (diff cs)) = length (map (\<lambda>i. Fin (gain_raw cs i)) [0..<length cs])"
    by (simp add: where_gt0_def)
next
  fix i assume "i < length (where_gt0 (diff cs))"
  then have "i < length cs" by (simp add: where_gt0_def)
  then show "where_gt0 (diff cs) ! i = map (\<lambda>i. Fin (gain_raw cs i)) [0..<length cs] ! i"
    by (simp add: where_gt0_diff_nth)
qed

lemma where_lt0_diff: "where_lt0 (diff cs) = map (\<lambda>i. Fin (loss_raw cs i)) [0..<length cs]"
proof (rule nth_equalityI)
  show "length (where_lt0 (diff cs)) = length (map (\<lambda>i. Fin (loss_raw cs i)) [0..<length cs])"
    by (simp add: where_lt0_def)
next
  fix i assume "i < length (where_lt0 (diff cs))"
  then have "i < length cs" by (simp add: where_lt0_def)
  then show "where_lt0 (diff cs) ! i = map (\<lambda>i. Fin (loss_raw cs i)) [0..<length cs] ! i"
    by (simp add: where_lt0_diff_nth)
qed

lemma foldl_f_add_Fin: "foldl f_add (Fin a) (map (\<lambda>i. Fin (g i)) ks) = Fin (a + (\<Sum>k\<leftarrow>ks. g k))"
  by (induction ks arbitrary: a) (simp_all add: f_add_def add.assoc)

lemma window_at_upt:
  "i < n \<Longrightarrow> w \<le> i + 1 \<Longrightarrow> window_at w [0..<n] i = [i + 1 - w..<i + 1]"
  by (simp add: window_at_def take_upt)

lemma window_at_map: "window_at w (map f xs) i = map f (window_at w xs i)"
  by (simp add: window_at_def take_map drop_map)

lemma f_div_Fin_pos: "0 < b \<Longrightarrow> f_div (Fin a) (Fin b) = Fin (a / b)"
  by (simp add: f_div_def zero_signed_def)

lemma rolling_mean_Fin_nth:
  assumes "i < n"
  shows "rolling_mean w (map (\<lambda>i. Fin (g i)) [0..<n]) ! i =
         (if i + 1 < w \<or> w = 0 then NaN else Fin ((\<Sum>k\<leftarrow>[i + 1 - w..<i + 1]. g k) / real w))"
proof (cases "i + 1 < w")
  case True
  with assms show ?thesis by (simp add: rolling_mean_def)
next
  case False
  show ?thesis
  proof (cases "w = 0")
    case True
    with assms show ?thesis
      by (simp add: rolling_mean_def window_at_def f_div_def)
  next
    case w: False
    from False have le: "w \<le> i + 1" by simp
    have "foldl f_add (Fin 0) (window_at w (map (\<lambda>i. Fin (g i)) [0..<n]) i)
          = Fin (\<Sum>k\<leftarrow>[i + 1 - w..<i + 1]. g k)"
      using assms le by (simp only: window_at_map window_at_upt foldl_f_add_Fin) simp
    with assms False w show ?thesis
      by (simp add: rolling_mean_def f_div_Fin_pos)
  qed
qed

lemma avg_gain_nth:
  "i < length cs \<Longrightarrow>
   avg_gain cs w ! i = (if i + 1 < w \<or> w = 0 then NaN else Fin (gain_sum cs w i / real w))"
  by (simp add: avg_gain_def where_gt0_diff rolling_mean_Fin_nth gain_sum_def)

lemma avg_loss_nth:
  "i < length cs \<Longrightarrow>
   avg_loss cs w ! i = (if i + 1 < w \<or> w = 0 then NaN else f_neg (Fin (loss_sum cs w i / real w)))"
  by (simp add: avg_loss_def where_lt0_diff rolling_mean_Fin_nth loss_sum_def)

lemma gain_sum_nonneg: "0 \<le> gain_sum cs w i"
  unfolding gain_sum_def by (rule sum_list_nonneg) (auto simp: gain_raw_def)

lemma loss_sum_nonpos: "loss_sum cs w i \<le> 0"
  unfolding loss_sum_def by (rule sum_list_nonpos) (auto simp: loss_raw_def)

section \<open>The values of the RSI column\<close>

lemma rsi_of_rs_NaN [simp]: "rsi_of_rs NaN = NaN"
  by (simp add: rsi_of_rs_def f_add_def f_div_def f_sub_def)

lemma f_div_NaN_left [simp]: "f_div NaN b = NaN"
  by (simp add: f_div_def)

lemma rsi_of_rs_NegInf: "rsi_of_rs NegInf = Fin 100"
  by (simp add: rsi_of_rs_def f_add_def f_div_def f_sub_def zero_signed_def)

lemma rsi_of_rs_Fin: "0 \<le> r \<Longrightarrow> rsi_of_rs (Fin r) = Fin (100 - 100 / (1 + r))"
  by (simp add: rsi_of_rs_def f_add_def f_div_def)

lemma rs_value:
  assumes "0 \<le> g" and "l \<le> 0"
  shows "f_div (Fin g) (f_neg (Fin l)) =
         (if l = 0 then (if g = 0 then NaN else NegInf) else Fin (g / (- l)))"
  using assms by (auto simp: f_div_def inf_signed_def zero_signed_def)

lemma rsi_value:
  assumes "0 \<le> g" and "l \<le> 0"
  shows "rsi_of_rs (f_div (Fin g) (f_neg (Fin l))) =
         (if l = 0 then (if g = 0 then NaN else Fin 100) else Fin (100 - 100 / (1 + g / (- l))))"
proof -
  have "l \<noteq> 0 \<Longrightarrow> 0 \<le> g / (- l)"
    using assms by (intro divide_nonneg_nonneg) simp_all
  then show ?thesis
    unfolding rs_value [OF assms] by (simp add: rsi_of_rs_NegInf rsi_of_rs_Fin)
qed

lemma calculate_rsi_nth_value:
  assumes "i < length cs"
  shows "calculate_rsi cs w ! i =
    (if i + 1 < w \<or> w = 0 then NaN
     else if loss_sum cs w i = 0 then (if gain_sum cs w i = 0 then NaN else Fin 100)
     else Fin (100 - 100 / (1 + gain_sum cs w i / (- loss_sum cs w i))))"
proof (cases "i + 1 < w \<or> w = 0")
  case True
  with assms show ?thesis
    by (simp add: calculate_rsi_nth avg_gain_nth)
next
  case False
  then have w: "0 < real w" by simp
  have g: "0 \<le> gain_sum cs w i / real w"
    using gain_sum_nonneg [of cs w i] w by simp
  have l: "loss_sum cs w i / real w \<le> 0"
    using loss_sum_nonpos [of cs w i] w by (simp add: divide_nonpos_pos)
  have q: "gain_sum cs w i / real w / (- (loss_sum cs w i / real w))
           = gain_sum cs w i / (- loss_sum cs w i)"
    using w by simp
  from assms False
  have "calculate_rsi cs w ! i =
        rsi_of_rs (f_div (Fin (gain_sum cs w i / real w)) (f_neg (Fin (loss_sum cs w i / real w))))"
    by (simp add: calculate_rsi_nth avg_gain_nth avg_loss_nth del: f_neg.simps)
  also have "\<dots> = (if loss_sum cs w i / real w = 0
                     then (if gain_sum cs w i / real w = 0 then NaN else Fin 100)
                     else Fin (100 - 100 / (1 + gain_sum cs w i / (- loss_sum cs w i))))"
    unfolding rsi_value [OF g l] q ..
  finally show ?thesis using False w by simp
qed

lemma rsi_formula_bounds:
  assumes "0 \<le> g" and "l < (0::real)"
  shows "0 \<le> 100 - 100 / (1 + g / (- l))" and "100 - 100 / (1 + g / (- l)) \<le> 100"
proof -
  have r: "0 \<le> g / (- l)"
    using assms by (intro divide_nonneg_nonneg) simp_all
  then have "1 \<le> 1 + g / (- l)" by simp
  then have "100 / (1 + g / (- l)) \<le> 100 / 1"
    by (intro divide_left_mono) simp_all
  then show "0 \<le> 100 - 100 / (1 + g / (- l))" by simp
  have "0 \<le> 100 / (1 + g / (- l))" using r by simp
  then show "100 - 100 / (1 + g / (- l)) \<le> 100" by simp
qed

text \<open>
  C7. For every series of closing prices with at least \<open>w + 1\<close> points and every index
  at which the RSI is defined (is not NaN), the RSI is a finite number between 0 and 100,
  both ends included.
\<close>

theorem rsi_in_range:
  assumes "w + 1 \<le> length cs" and "i < length cs" and "calculate_rsi cs w ! i \<noteq> NaN"
  shows "\<exists>r. calculate_rsi cs w ! i = Fin r \<and> 0 \<le> r \<and> r \<le> 100"
proof (cases "loss_sum cs w i = 0")
  case True
  with assms(2,3) have "calculate_rsi cs w ! i = Fin 100"
    by (simp add: calculate_rsi_nth_value split: if_splits)
  then show ?thesis by simp
next
  case False
  with loss_sum_nonpos [of cs w i] have l: "loss_sum cs w i < 0" by simp
  from assms(2,3) False
  have "calculate_rsi cs w ! i = Fin (100 - 100 / (1 + gain_sum cs w i / (- loss_sum cs w i)))"
    by (simp add: calculate_rsi_nth_value split: if_splits)
  with rsi_formula_bounds [OF gain_sum_nonneg l, of cs w i] show ?thesis by simp
qed

theorem rsi_in_range_witness:
  "14 + 1 \<le> length sample_closes \<and> 14 < length sample_closes \<and>
   calculate_rsi sample_closes 14 ! 14 \<noteq> NaN \<and>
   (\<exists>r. calculate_rsi sample_closes 14 ! 14 = Fin r \<and> 0 \<le> r \<and> r \<le> 100)"
proof -
  have h1: "14 + 1 \<le> length sample_closes" by code_simp
  have h2: "14 < length sample_closes" by code_simp
  have h3: "calculate_rsi sample_closes 14 ! 14 \<noteq> NaN" by code_simp
  from rsi_in_range [OF h1 h2 h3] h1 h2 h3 show ?thesis by blast
qed

lemma sum_list_all_zero: "(\<And>k. k \<in> set ks \<Longrightarrow> g k = (0::real)) \<Longrightarrow> (\<Sum>k\<leftarrow>ks. g k) = 0"
  by (induction ks) simp_all

lemma flat_raw:
  assumes "\<forall>i<length cs. 0 < i \<longrightarrow> diff cs ! i = Fin 0" and "k < length cs"
  shows "gain_raw cs k = 0" and "loss_raw cs k = 0"
proof -
  have "cs ! k - cs ! (k - 1) = 0" if "0 < k"
  proof -
    from that obtain j where j: "k = Suc j" by (cases k) auto
    with assms have "diff cs ! Suc j = Fin 0" by simp
    with assms(2) j show ?thesis by (simp add: diff_nth_Suc)
  qed
  then show "gain_raw cs k = 0" and "loss_raw cs k = 0"
    by (auto simp: gain_raw_def loss_raw_def)
qed

lemma flat_rsi_nan:
  assumes "\<forall>i<length cs. 0 < i \<longrightarrow> diff cs ! i = Fin 0"
  shows "\<forall>i<length cs. calculate_rsi cs w ! i = NaN"
proof (intro allI impI)
  fix i assume i: "i < length cs"
  have g: "gain_sum cs w i = 0"
    unfolding gain_sum_def using i by (intro sum_list_all_zero flat_raw(1) [OF assms]) auto
  have l: "loss_sum cs w i = 0"
    unfolding loss_sum_def using i by (intro sum_list_all_zero flat_raw(2) [OF assms]) auto
  from i g l show "calculate_rsi cs w ! i = NaN"
    by (simp add: calculate_rsi_nth_value)
qed

text \<open>
  C4, as the program has it. For a window \<open>w \<ge> 1\<close> the trailing average of the gains, and
  that of the losses, at index \<open>i\<close> is defined exactly when \<open>i \<ge> w - 1\<close>, that is when \<open>w\<close>
  entries of the column end at \<open>i\<close>; the entry at index 0, whose delta is undefined, counts
  among them as a gain of 0 and a loss of 0. At every index below \<open>w - 1\<close> the averages and
  the RSI are undefined.
\<close>

theorem trailing_average_defined:
  assumes "1 \<le> w" and "i < length cs"
  shows "(avg_gain cs w ! i \<noteq> NaN \<longleftrightarrow> w \<le> i + 1) \<and>
         (avg_loss cs w ! i \<noteq> NaN \<longleftrightarrow> w \<le> i + 1) \<and>
         (i + 1 < w \<longrightarrow> calculate_rsi cs w ! i = NaN)"
  using assms by (auto simp: avg_gain_nth avg_loss_nth calculate_rsi_nth_value)

theorem trailing_average_defined_witness:
  "1 \<le> (14::nat) \<and> 13 < length sample_closes \<and> 12 < length sample_closes \<and>
   avg_gain sample_closes 14 ! 13 \<noteq> NaN \<and> avg_loss sample_closes 14 ! 13 \<noteq> NaN \<and>
   avg_gain sample_closes 14 ! 12 = NaN \<and> avg_loss sample_closes 14 ! 12 = NaN \<and>
   calculate_rsi sample_closes 14 ! 12 = NaN"
proof -
  have h1: "1 \<le> (14::nat)" by simp
  have h2: "13 < length sample_closes" by code_simp
  have h3: "12 < length sample_closes" by code_simp
  from trailing_average_defined [OF h1 h2] trailing_average_defined [OF h1 h3] h1 h2 h3
  show ?thesis by simp
qed

text \<open>
  On the sample series with the window of 14, index 13 has both averages and the RSI
  defined.
\<close>

theorem trailing_average_counterexample:
  "1 \<le> (14::nat) \<and> 14 - 1 < length sample_closes \<and>
   avg_gain sample_closes 14 ! (14 - 1) = Fin (25000 / 7) \<and>
   avg_loss sample_closes 14 ! (14 - 1) = Fin (49999 / 14) \<and>
   calculate_rsi sample_closes 14 ! (14 - 1) = Fin (5000000 / 99999) \<and>
   avg_gain sample_closes 14 ! (14 - 1) \<noteq> NaN \<and>
   avg_loss sample_closes 14 ! (14 - 1) \<noteq> NaN \<and>
   calculate_rsi sample_closes 14 ! (14 - 1) \<noteq> NaN"
  by code_simp

lemma flat_averages:
  assumes "\<forall>i<length cs. 0 < i \<longrightarrow> diff cs ! i = Fin 0"
    and "i < length cs" and "1 \<le> w" and "w \<le> i + 1"
  shows "avg_gain cs w ! i = Fin 0" and "avg_loss cs w ! i = NegZero"
proof -
  have g: "gain_sum cs w i = 0"
    unfolding gain_sum_def using assms(2) by (intro sum_list_all_zero flat_raw(1) [OF assms(1)]) auto
  have l: "loss_sum cs w i = 0"
    unfolding loss_sum_def using assms(2) by (intro sum_list_all_zero flat_raw(2) [OF assms(1)]) auto
  from assms(2-4) g show "avg_gain cs w ! i = Fin 0" by (simp add: avg_gain_nth)
  from assms(2-4) l show "avg_loss cs w ! i = NegZero" by (simp add: avg_loss_nth)
qed

lemma rising_raw:
  assumes "\<forall>i. Suc i < length cs \<longrightarrow> cs ! i < cs ! Suc i" and "k < length cs"
  shows "loss_raw cs k = 0" and "0 < k \<Longrightarrow> 0 < gain_raw cs k"
proof -
  have d: "0 < cs ! k - cs ! (k - 1)" if "0 < k"
  proof -
    from that obtain j where j: "k = Suc j" by (cases k) auto
    with assms have "cs ! j < cs ! Suc j" by simp
    with j show ?thesis by simp
  qed
  then show "loss_raw cs k = 0" by (cases "k = 0") (auto simp: loss_raw_def)
  from d show "0 < k \<Longrightarrow> 0 < gain_raw cs k" by (auto simp: gain_raw_def)
qed

lemma gain_sum_last:
  assumes "w \<le> i + 1" and "1 \<le> w"
  shows "gain_sum cs w i = (\<Sum>k\<leftarrow>[i + 1 - w..<i]. gain_raw cs k) + gain_raw cs i"
proof -
  from assms have "[i + 1 - w..<i + 1] = [i + 1 - w..<i] @ [i]" by simp
  then show ?thesis by (simp add: gain_sum_def)
qed

text \<open>
  C8, as the program has it. For every strictly increasing series of closing prices and
  every window \<open>w \<ge> 1\<close>, at every index \<open>i \<ge> 1\<close> where the trailing averages are defined
  (\<open>i \<ge> w - 1\<close>) the average loss is zero, the average gain is positive and the RSI is
  exactly 100.
\<close>

theorem rising_series_saturates:
  assumes "\<forall>i. Suc i < length cs \<longrightarrow> cs ! i < cs ! Suc i"
    and "1 \<le> w" and "w \<le> i + 1" and "1 \<le> i" and "i < length cs"
  shows "iszero (avg_loss cs w ! i) \<and>
         (\<exists>g. avg_gain cs w ! i = Fin g \<and> 0 < g) \<and>
         calculate_rsi cs w ! i = Fin 100"
proof -
  have l: "loss_sum cs w i = 0"
    unfolding loss_sum_def using assms(5)
    by (intro sum_list_all_zero rising_raw(1) [OF assms(1)]) auto
  have "0 \<le> (\<Sum>k\<leftarrow>[i + 1 - w..<i]. gain_raw cs k)"
    by (rule sum_list_nonneg) (auto simp: gain_raw_def)
  moreover have "0 < gain_raw cs i"
    using rising_raw(2) [OF assms(1) assms(5)] assms(4) by simp
  ultimately have g: "0 < gain_sum cs w i"
    by (simp add: gain_sum_last [OF assms(3) assms(2)])
  from assms(2) have w: "0 < real w" by simp
  have "avg_loss cs w ! i = NegZero"
    using assms(2,3,5) l by (simp add: avg_loss_nth)
  moreover have "avg_gain cs w ! i = Fin (gain_sum cs w i / real w)"
    using assms(2,3,5) by (simp add: avg_gain_nth)
  moreover have "0 < gain_sum cs w i / real w" using g w by simp
  moreover have "calculate_rsi cs w ! i = Fin 100"
    using assms(2,3,5) l g by (simp add: calculate_rsi_nth_value)
  ultimately show ?thesis by simp
qed

theorem rising_series_saturates_witness:
  "[1, 2, 4, 7 :: real] ! 0 < [1, 2, 4, 7] ! 1 \<and> [1, 2, 4, 7 :: real] ! 1 < [1, 2, 4, 7] ! 2 \<and>
   [1, 2, 4, 7 :: real] ! 2 < [1, 2, 4, 7] ! 3 \<and>
   1 \<le> (3::nat) \<and> (3::nat) \<le> 2 + 1 \<and> 1 \<le> (2::nat) \<and> 2 < length [1, 2, 4, 7 :: real] \<and>
   iszero (avg_loss [1, 2, 4, 7] 3 ! 2) \<and>
   (\<exists>g. avg_gain [1, 2, 4, 7] 3 ! 2 = Fin g \<and> 0 < g) \<and>
   calculate_rsi [1, 2, 4, 7] 3 ! 2 = Fin 100"
proof -
  have h1: "\<forall>i. Suc i < length [1, 2, 4, 7 :: real] \<longrightarrow> [1, 2, 4, 7 :: real] ! i < [1, 2, 4, 7] ! Suc i"
  proof (intro allI impI)
    fix i assume "Suc i < length [1, 2, 4, 7 :: real]"
    then have "i = 0 \<or> i = 1 \<or> i = 2" by auto
    then show "[1, 2, 4, 7 :: real] ! i < [1, 2, 4, 7] ! Suc i" by auto
  qed
  have h2: "1 \<le> (3::nat)" and h3: "(3::nat) \<le> 2 + 1" and h4: "1 \<le> (2::nat)"
    and h5: "2 < length [1, 2, 4, 7 :: real]" by simp_all
  have c: "[1, 2, 4, 7 :: real] ! 0 < [1, 2, 4, 7] ! 1 \<and> [1, 2, 4, 7 :: real] ! 1 < [1, 2, 4, 7] ! 2 \<and>
   [1, 2, 4, 7 :: real] ! 2 < [1, 2, 4, 7] ! 3" by simp
  from rising_series_saturates [OF h1 h2 h3 h4 h5] c h2 h3 h4 h5 show ?thesis by blast
qed

text \<open>
  With the window of 1 the averages at index 0 are defined, being the mean of the single
  entry 0 that stands for the undefined delta: the average gain is 0, not positive, and
  the RSI is NaN, not 100.
\<close>

theorem rising_series_counterexample:
  "[1, 2 :: real] ! 0 < [1, 2] ! 1 \<and> (0::nat) < length [1, 2 :: real] \<and>
   avg_gain [1, 2] 1 ! 0 = Fin 0 \<and> avg_loss [1, 2] 1 ! 0 = NegZero \<and>
   avg_gain [1, 2] 1 ! 0 \<noteq> NaN \<and> avg_loss [1, 2] 1 ! 0 \<noteq> NaN \<and>
   \<not> f_gt (avg_gain [1, 2] 1 ! 0) (Fin 0) \<and>
   calculate_rsi [1, 2] 1 ! 0 = NaN \<and> calculate_rsi [1, 2] 1 ! 0 \<noteq> Fin 100"
  by code_simp

section \<open>Shape of an evaluation and of the run\<close>

lemma f_gt_Fin [simp]: "f_gt (Fin a) (Fin b) = (b < a)"
  by (simp add: f_gt_def)

lemma f_gt_NaN [simp]: "f_gt NaN b = False"
  by (simp add: f_gt_def)

lemma evaluate_body_fetch_raises:
  "yf symbol = Inl e \<Longrightarrow> evaluate_body yf symbol t = Inl e"
  by (simp add: evaluate_body_def and_then_def)

lemma evaluate_body_short:
  "yf symbol = Inr stock_data \<Longrightarrow> frame_len stock_data < 15 \<Longrightarrow>
   evaluate_body yf symbol t = Inr (symbol, None, None, None, None, SkippedInsufficientData)"
  by (simp add: evaluate_body_def and_then_def)

lemma evaluate_body_unreadable:
  "yf symbol = Inr (Unreadable n e) \<Longrightarrow> 15 \<le> n \<Longrightarrow> evaluate_body yf symbol t = Inl e"
  by (simp add: evaluate_body_def and_then_def)

lemma evaluate_body_enough:
  assumes "yf symbol = Inr (Rows stock_data)" and "15 \<le> length stock_data"
  shows "evaluate_body yf symbol t =
    Inr (symbol,
         Some (py_round2 (Fin (Close (stock_data ! (length stock_data - 1))))),
         Some (py_round2 (calculate_rsi (map Close stock_data) 14 ! (length stock_data - 1))),
         Some (Close (stock_data ! (length stock_data - 2)) < Close (stock_data ! (length stock_data - 1))),
         Some (Volume (stock_data ! (length stock_data - 2)) < Volume (stock_data ! (length stock_data - 1))),
         if f_gt (calculate_rsi (map Close stock_data) 14 ! (length stock_data - 1)) (Fin t)
            \<and> Close (stock_data ! (length stock_data - 2)) < Close (stock_data ! (length stock_data - 1))
            \<and> Volume (stock_data ! (length stock_data - 2)) < Volume (stock_data ! (length stock_data - 1))
         then StrongBuy else NotStrongBuy)"
proof -
  from assms(2) have ne: "length stock_data \<noteq> 0" and ge: "\<not> length stock_data < 15" by auto
  have i1: "iloc_neg (calculate_rsi (map Close stock_data) 14) 1
            = Inr (calculate_rsi (map Close stock_data) 14 ! (length stock_data - 1))"
    using assms(2) by (simp add: iloc_neg_def)
  have c1: "iloc_neg (map (Fin \<circ> Close) stock_data) 1
            = Inr (Fin (Close (stock_data ! (length stock_data - 1))))"
    using assms(2) by (simp add: iloc_neg_def)
  have c2: "iloc_neg (map (Fin \<circ> Close) stock_data) 2
            = Inr (Fin (Close (stock_data ! (length stock_data - 2))))"
    using assms(2) by (simp add: iloc_neg_def)
  have v1: "iloc_neg (map (Fin \<circ> Volume) stock_data) 1
            = Inr (Fin (Volume (stock_data ! (length stock_data - 1))))"
    using assms(2) by (simp add: iloc_neg_def)
  have v2: "iloc_neg (map (Fin \<circ> Volume) stock_data) 2
            = Inr (Fin (Volume (stock_data ! (length stock_data - 2))))"
    using assms(2) by (simp add: iloc_neg_def)
  show ?thesis
    using ne ge i1 c1 c2 v1 v2 unfolding evaluate_body_def assms(1)
    by (simp add: and_then_def Let_def del: py_round2.simps)
qed

text \<open>
  The body raises exactly what the fetch raised, or what an unreadable frame of at least
  15 rows makes the computation raise.
\<close>

lemma evaluate_body_raises_iff:
  "evaluate_body yf symbol t = Inl e \<longleftrightarrow>
   yf symbol = Inl e \<or> (\<exists>n. 15 \<le> n \<and> yf symbol = Inr (Unreadable n e))"
proof (cases "yf symbol")
  case (Inl x)
  then show ?thesis by (simp add: evaluate_body_fetch_raises)
next
  case (Inr f)
  show ?thesis
  proof (cases "frame_len f < 15")
    case True
    with Inr show ?thesis
      by (cases f) (auto simp: evaluate_body_short)
  next
    case False
    show ?thesis
    proof (cases f)
      case (Rows bars)
      with False Inr have "yf symbol = Inr (Rows bars)" and "15 \<le> length bars" by simp_all
      from evaluate_body_enough [of yf symbol bars t, OF this] Inr Rows show ?thesis by simp
    next
      case (Unreadable n x)
      with False Inr show ?thesis by (auto simp: evaluate_body_unreadable)
    qed
  qed
qed

lemma evaluate_stock_caught:
  "evaluate_body yf symbol t = Inl (Exception msg) \<Longrightarrow>
   evaluate_stock yf symbol t = Inr (symbol, None, None, None, None, SkippedFetchError msg)"
  by (simp add: evaluate_stock_def)

lemma evaluate_stock_escapes:
  "evaluate_body yf symbol t = Inl (BaseOnly msg) \<Longrightarrow>
   evaluate_stock yf symbol t = Inl (BaseOnly msg)"
  by (simp add: evaluate_stock_def)

lemma evaluate_stock_returned:
  "evaluate_body yf symbol t = Inr r \<Longrightarrow> evaluate_stock yf symbol t = Inr r"
  by (simp add: evaluate_stock_def)

lemma evaluate_stock_returns_iff:
  "(\<exists>r. evaluate_stock yf symbol t = Inr r) \<longleftrightarrow> (\<forall>m. evaluate_body yf symbol t \<noteq> Inl (BaseOnly m))"
  by (auto simp: evaluate_stock_def split: sum.splits py_exception.splits)

lemma evaluate_stock_cong:
  "yf' symbol = yf symbol \<Longrightarrow> evaluate_stock yf' symbol t = evaluate_stock yf symbol t"
  by (simp add: evaluate_stock_def evaluate_body_def)

lemma main_loop_acc:
  assumes "\<forall>s\<in>set symbols. \<exists>r. evaluate_stock yf s t = Inr r"
  shows "main_loop yf t symbols (panels, sb) =
   Inr (panels @ map (\<lambda>s. (s, panel_of (projr (evaluate_stock yf s t)))) symbols,
        sb @ map (\<lambda>s. (s, price_of (projr (evaluate_stock yf s t)),
                         rsi_of (projr (evaluate_stock yf s t))))
               (filter (\<lambda>s. returns_verdict yf t s StrongBuy) symbols))"
  using assms
proof (induction symbols arbitrary: panels sb)
  case Nil
  show ?case by simp
next
  case (Cons s rest)
  from Cons.prems obtain name price rsi pu vu v
    where e: "evaluate_stock yf s t = Inr (name, price, rsi, pu, vu, v)"
    by (metis list.set_intros(1) prod_cases6)
  from Cons.prems have rest: "\<forall>s\<in>set rest. \<exists>r. evaluate_stock yf s t = Inr r" by simp
  note IH = Cons.IH [OF rest]
  show ?case
  proof (cases "is_skipped v")
    case True
    then have "v \<noteq> StrongBuy" by auto
    with True e IH show ?thesis
      by (simp add: panel_of_def verdict_of_def returns_verdict_def)
  next
    case False
    with e IH show ?thesis
      by (simp add: panel_of_def verdict_of_def price_of_def rsi_of_def returns_verdict_def)
  qed
qed

lemma main_loop_aborts:
  "s \<in> set symbols \<Longrightarrow> evaluate_stock yf s t = Inl e \<Longrightarrow>
   \<exists>e'. main_loop yf t symbols (panels, sb) = Inl e'"
proof (induction symbols arbitrary: panels sb)
  case Nil
  then show ?case by simp
next
  case (Cons a rest)
  show ?case
  proof (cases "evaluate_stock yf a t")
    case (Inl x)
    then show ?thesis by simp
  next
    case (Inr r)
    with Cons.prems have "s \<in> set rest" by auto
    note IH = Cons.IH [OF this Cons.prems(2)]
    obtain name price rsi pu vu v where r: "r = (name, price, rsi, pu, vu, v)"
      by (metis prod_cases6)
    from Inr r show ?thesis by (simp add: IH)
  qed
qed

lemma main_finished:
  assumes "\<forall>s\<in>set symbols. \<exists>r. evaluate_stock yf s t = Inr r"
  shows "main (Inr symbols) yf q fmt t =
   Inr (Finished (map (\<lambda>s. (s, panel_of (projr (evaluate_stock yf s t)))) symbols)
     (map (\<lambda>s. (s, price_of (projr (evaluate_stock yf s t)), rsi_of (projr (evaluate_stock yf s t))))
        (filter (\<lambda>s. returns_verdict yf t s StrongBuy) symbols))
     (if filter (\<lambda>s. returns_verdict yf t s StrongBuy) symbols \<noteq> []
      then Some (to_csv False q fmt
        (map (\<lambda>s. (s, price_of (projr (evaluate_stock yf s t)), rsi_of (projr (evaluate_stock yf s t))))
           (filter (\<lambda>s. returns_verdict yf t s StrongBuy) symbols)))
      else None))"
  by (simp add: main_def main_loop_acc [OF assms])

lemma main_finished_only_if:
  assumes "main (Inr symbols) yf q fmt t = Inr out"
  shows "\<forall>s\<in>set symbols. \<exists>r. evaluate_stock yf s t = Inr r"
proof (rule ballI)
  fix s assume s: "s \<in> set symbols"
  show "\<exists>r. evaluate_stock yf s t = Inr r"
  proof (cases "evaluate_stock yf s t")
    case (Inl e)
    from main_loop_aborts [OF s Inl, of "[]" "[]"] assms show ?thesis
      by (auto simp: main_def)
  next
    case (Inr r)
    then show ?thesis by (rule exI)
  qed
qed

lemma to_csv_no_index:
  "to_csv False q fmt df =
   ''Symbol,Price,RSI'' #
   map (\<lambda>(symbol, price, rsi). csv_field q symbol @ '','' @ fmt price @ '','' @ fmt rsi) df"
  by (simp add: to_csv_def csv_field_def needs_quote_def row_cells_def split_def)

section \<open>The verdict of one evaluation\<close>

lemma round_half_even_close: "\<bar>of_int (round_half_even y) - y\<bar> \<le> 1 / 2"
  unfolding round_half_even_def Let_def by (auto; linarith)

lemma py_round2_close:
  "\<bar>valof (py_round2 (Fin x)) - x\<bar> \<le> 1 / 200 \<and>
   (\<exists>k::int. valof (py_round2 (Fin x)) = of_int k / 100)"
proof -
  have c: "\<bar>of_int (round_half_even (x * 100)) - x * 100\<bar> \<le> 1 / 2"
    by (rule round_half_even_close)
  then have "\<bar>of_int (round_half_even (x * 100)) / 100 - x\<bar> \<le> 1 / 200" by (simp add: abs_le_iff field_simps)
  moreover have "round_half_even (x * 100) = 0 \<Longrightarrow> \<bar>x\<bar> \<le> 1 / 200" using c by simp
  ultimately show ?thesis by (auto simp: Let_def intro: exI [where x = 0])
qed


text \<open>
  C1. When the provider returns at least 15 bars, the evaluation returns, and its verdict
  is StrongBuy exactly when the last RSI value, as computed and not yet rounded, is
  strictly above the threshold, the last close is strictly above the one before and the
  last volume is strictly above the one before; in every other case (an RSI equal to the
  threshold, equal closes or equal volumes among them) it is NotStrongBuy.
\<close>

theorem strong_buy_rule:
  assumes "yf_download symbol = Inr (Rows stock_data)" and "15 \<le> length stock_data"
  shows "\<exists>r. evaluate_stock yf_download symbol rsi_threshold = Inr r \<and> verdict_of r =
    (if f_gt (calculate_rsi (map Close stock_data) 14 ! (length stock_data - 1)) (Fin rsi_threshold)
        \<and> Close (stock_data ! (length stock_data - 2)) < Close (stock_data ! (length stock_data - 1))
        \<and> Volume (stock_data ! (length stock_data - 2)) < Volume (stock_data ! (length stock_data - 1))
     then StrongBuy else NotStrongBuy)"
  using evaluate_body_enough [of yf_download symbol stock_data rsi_threshold] assms
  by (simp add: evaluate_stock_def verdict_of_def)

text \<open>
  On the sample series the last RSI is 50.001: a strong buy at threshold 50, and not a
  strong buy at the threshold 50.001 itself.
\<close>

theorem strong_buy_rule_witness:
  "sample_provider ''AAA'' = Inr (Rows (bars_of sample_closes)) \<and>
   15 \<le> length (bars_of sample_closes) \<and>
   (\<exists>r. evaluate_stock sample_provider ''AAA'' 50 = Inr r \<and> verdict_of r = StrongBuy) \<and>
   (\<exists>r. evaluate_stock sample_provider ''AAA'' (50001 / 1000) = Inr r \<and> verdict_of r = NotStrongBuy)"
proof -
  have h1: "sample_provider ''AAA'' = Inr (Rows (bars_of sample_closes))" by code_simp
  have h2: "15 \<le> length (bars_of sample_closes)" by code_simp
  have r: "calculate_rsi (map Close (bars_of sample_closes)) 14 ! (length (bars_of sample_closes) - 1)
           = Fin (50001 / 1000)" by code_simp
  have c: "Close (bars_of sample_closes ! (length (bars_of sample_closes) - 2))
           < Close (bars_of sample_closes ! (length (bars_of sample_closes) - 1))" by code_simp
  have v: "Volume (bars_of sample_closes ! (length (bars_of sample_closes) - 2))
           < Volume (bars_of sample_closes ! (length (bars_of sample_closes) - 1))" by code_simp
  from strong_buy_rule [of sample_provider "''AAA''" "bars_of sample_closes" 50, OF h1 h2]
    strong_buy_rule [of sample_provider "''AAA''" "bars_of sample_closes" "50001 / 1000", OF h1 h2] h1 h2
  show ?thesis unfolding r using c v by simp
qed




text \<open>
  C5. For every symbol and every threshold, a frame of fewer than 15 rows (the empty
  one among them) gives the verdict SkippedInsufficientData with no price, no RSI and no
  direction flags.
\<close>

theorem too_few_bars_skipped:
  assumes "yf_download symbol = Inr stock_data" and "frame_len stock_data < 15"
  shows "evaluate_stock yf_download symbol rsi_threshold =
         Inr (symbol, None, None, None, None, SkippedInsufficientData)"
  using evaluate_body_short [of yf_download symbol stock_data rsi_threshold] assms
  by (simp add: evaluate_stock_def)

theorem too_few_bars_skipped_witness:
  "sample_provider ''ZZZ'' = Inr (Rows (bars_of [1, 2, 3])) \<and> frame_len (Rows (bars_of [1, 2, 3])) < 15 \<and>
   evaluate_stock sample_provider ''ZZZ'' 50 =
     Inr (''ZZZ'', None, None, None, None, SkippedInsufficientData) \<and>
   evaluate_stock (\<lambda>s. Inr (Rows [])) ''EMPTY'' 70 =
     Inr (''EMPTY'', None, None, None, None, SkippedInsufficientData)"
proof -
  have h1: "sample_provider ''ZZZ'' = Inr (Rows (bars_of [1, 2, 3]))" by code_simp
  have h2: "frame_len (Rows (bars_of [1, 2, 3])) < 15" by code_simp
  have e1: "(\<lambda>s. Inr (Rows [])) ''EMPTY'' = (Inr (Rows []) :: py_exception + frame)" by simp
  have e2: "frame_len (Rows []) < 15" by simp
  note a = too_few_bars_skipped [of sample_provider "''ZZZ''" "Rows (bars_of [1, 2, 3])" 50, OF h1 h2]
  note b = too_few_bars_skipped [of "\<lambda>s. Inr (Rows [])" "''EMPTY''" "Rows []" 70, OF e1 e2]
  show ?thesis by (rule conjI [OF h1 conjI [OF h2 conjI [OF a b]]])
qed

section \<open>The undefined RSI is a NaN\<close>

text \<open>
  C2, as the program has it. For every series of closing prices whose day-over-day deltas
  are all zero, and every window, the RSI column is NaN at every index, neither 0 nor 100;
  from index \<open>w - 1\<close> on the average gain and the average loss are both zero and the NaN is
  their ratio. The NaN is a value of the float column like any other: on such a series of
  at least 15 bars the evaluation returns a result with verdict NotStrongBuy that carries
  the NaN as its RSI, the comparison of NaN with the threshold being false and rounding
  leaving NaN as it is.
\<close>

theorem flat_series_rsi_nan:
  assumes "\<forall>i<length cs. 0 < i \<longrightarrow> diff cs ! i = Fin 0"
  shows "(\<forall>i<length cs. calculate_rsi cs w ! i = NaN \<and> calculate_rsi cs w ! i \<noteq> Fin 0 \<and>
            calculate_rsi cs w ! i \<noteq> Fin 100) \<and>
         (\<forall>i<length cs. 1 \<le> w \<and> w \<le> i + 1 \<longrightarrow>
            avg_gain cs w ! i = Fin 0 \<and> iszero (avg_loss cs w ! i) \<and>
            f_div (avg_gain cs w ! i) (avg_loss cs w ! i) = NaN) \<and>
         (\<forall>yf_download symbol stock_data rsi_threshold.
            yf_download symbol = Inr (Rows stock_data) \<and> map Close stock_data = cs \<and>
            15 \<le> length stock_data \<longrightarrow>
            (\<exists>r. evaluate_stock yf_download symbol rsi_threshold = Inr r \<and>
                 rsi_of r = Some NaN \<and> verdict_of r = NotStrongBuy) \<and>
            \<not> f_gt NaN (Fin rsi_threshold) \<and> py_round2 NaN = NaN)"
proof (intro conjI allI impI)
  fix i assume "i < length cs"
  with flat_rsi_nan [OF assms, of w] show n: "calculate_rsi cs w ! i = NaN" by simp
  then show "calculate_rsi cs w ! i \<noteq> Fin 0" and "calculate_rsi cs w ! i \<noteq> Fin 100" by simp_all
next
  fix i assume "i < length cs" and "1 \<le> w \<and> w \<le> i + 1"
  with flat_averages [OF assms, of i w]
  show "avg_gain cs w ! i = Fin 0" and "iszero (avg_loss cs w ! i)"
    and "f_div (avg_gain cs w ! i) (avg_loss cs w ! i) = NaN"
    by (simp_all add: f_div_def)
next
  fix yf_download :: provider and symbol stock_data rsi_threshold
  assume a: "yf_download symbol = Inr (Rows stock_data) \<and> map Close stock_data = cs \<and>
             15 \<le> length stock_data"
  then have len: "length cs = length stock_data" by auto
  with a flat_rsi_nan [OF assms, of 14]
  have n: "calculate_rsi (map Close stock_data) 14 ! (length stock_data - 1) = NaN" by auto
  from a have h1: "yf_download symbol = Inr (Rows stock_data)" and h2: "15 \<le> length stock_data"
    by simp_all
  from evaluate_body_enough [of yf_download symbol stock_data rsi_threshold, OF h1 h2] n
  show "\<exists>r. evaluate_stock yf_download symbol rsi_threshold = Inr r \<and>
            rsi_of r = Some NaN \<and> verdict_of r = NotStrongBuy"
    by (simp add: evaluate_stock_def verdict_of_def rsi_of_def)
  show "\<not> f_gt NaN (Fin rsi_threshold)" and "py_round2 NaN = NaN" by simp_all
qed

theorem flat_series_rsi_nan_witness:
  "diff (replicate 16 7) = NaN # replicate 15 (Fin 0) \<and>
   calculate_rsi (replicate 16 7) 14 ! 0 = NaN \<and>
   calculate_rsi (replicate 16 7) 14 ! 13 = NaN \<and>
   calculate_rsi (replicate 16 7) 14 ! 15 = NaN \<and>
   avg_gain (replicate 16 7) 14 ! 13 = Fin 0 \<and> iszero (avg_loss (replicate 16 7) 14 ! 13) \<and>
   map Close (bars_of (replicate 16 7)) = replicate 16 7 \<and>
   (\<exists>r. evaluate_stock (\<lambda>s. Inr (Rows (bars_of (replicate 16 7)))) ''SEVEN'' 30 = Inr r \<and>
        rsi_of r = Some NaN \<and> verdict_of r = NotStrongBuy)"
proof -
  have d: "diff (replicate 16 7) = NaN # replicate 15 (Fin 0)" by code_simp
  have n: "length (replicate 16 (7::real)) = 16" by simp
  have h: "\<forall>i<length (replicate 16 (7::real)). 0 < i \<longrightarrow> diff (replicate 16 7) ! i = Fin 0"
  proof (intro allI impI)
    fix i assume "i < length (replicate 16 (7::real))" and "0 < i"
    then obtain j where "i = Suc j" and "j < 15" by (cases i) auto
    then show "diff (replicate 16 7) ! i = Fin 0" by (simp add: d)
  qed
  note r = flat_series_rsi_nan [OF h, of 14]
  from r have r1: "\<forall>i<length (replicate 16 (7::real)). calculate_rsi (replicate 16 7) 14 ! i = NaN \<and>
      calculate_rsi (replicate 16 7) 14 ! i \<noteq> Fin 0 \<and> calculate_rsi (replicate 16 7) 14 ! i \<noteq> Fin 100"
    by (rule conjunct1)
  from r have r2: "\<forall>i<length (replicate 16 (7::real)). 1 \<le> (14::nat) \<and> 14 \<le> i + 1 \<longrightarrow>
      avg_gain (replicate 16 7) 14 ! i = Fin 0 \<and> iszero (avg_loss (replicate 16 7) 14 ! i) \<and>
      f_div (avg_gain (replicate 16 7) 14 ! i) (avg_loss (replicate 16 7) 14 ! i) = NaN"
    by (rule conjunct1 [OF conjunct2])
  from r have r3: "\<forall>yf_download symbol stock_data rsi_threshold.
            yf_download symbol = Inr (Rows stock_data) \<and> map Close stock_data = replicate 16 7 \<and>
            15 \<le> length stock_data \<longrightarrow>
            (\<exists>r. evaluate_stock yf_download symbol rsi_threshold = Inr r \<and>
                 rsi_of r = Some NaN \<and> verdict_of r = NotStrongBuy) \<and>
            \<not> f_gt NaN (Fin rsi_threshold) \<and> py_round2 NaN = NaN"
    by (rule conjunct2 [OF conjunct2])
  have m: "map Close (bars_of (replicate 16 7)) = replicate 16 7" by code_simp
  have l: "15 \<le> length (bars_of (replicate 16 7))" by code_simp
  from r1 have a0: "calculate_rsi (replicate 16 7) 14 ! 0 = NaN" by simp
  from r1 have a13: "calculate_rsi (replicate 16 7) 14 ! 13 = NaN" by simp
  from r1 have a15: "calculate_rsi (replicate 16 7) 14 ! 15 = NaN" by simp
  from r2 have g: "avg_gain (replicate 16 7) 14 ! 13 = Fin 0 \<and> iszero (avg_loss (replicate 16 7) 14 ! 13)"
    by simp
  from r3 [rule_format, of "\<lambda>s. Inr (Rows (bars_of (replicate 16 7)))" "''SEVEN''"
      "bars_of (replicate 16 7)" 30] m l
  have e: "\<exists>r. evaluate_stock (\<lambda>s. Inr (Rows (bars_of (replicate 16 7)))) ''SEVEN'' 30 = Inr r \<and>
        rsi_of r = Some NaN \<and> verdict_of r = NotStrongBuy"
    by simp
  from d a0 a13 a15 g m e show ?thesis by (intro conjI) simp_all
qed

text \<open>
  Sixteen bars at the price 7: the last RSI is NaN, the comparison with the threshold 30
  is made on it and is false, rounding leaves it as it is, and the result shown on the
  page carries it as the RSI.
\<close>

theorem flat_series_nan_counterexample:
  "calculate_rsi (replicate 16 7) 14 ! 15 = NaN \<and>
   \<not> f_gt (calculate_rsi (replicate 16 7) 14 ! 15) (Fin 30) \<and>
   py_round2 (calculate_rsi (replicate 16 7) 14 ! 15) = NaN \<and>
   evaluate_stock (\<lambda>s. Inr (Rows (bars_of (replicate 16 7)))) ''SEVEN'' 30 =
     Inr (''SEVEN'', Some (Fin 7), Some NaN, Some False, Some False, NotStrongBuy) \<and>
   panel_of (''SEVEN'', Some (Fin 7), Some NaN, Some False, Some False, NotStrongBuy) =
     Analysis (Some (Fin 7)) (Some NaN) (Some False) (Some False) NotStrongBuy"
  by code_simp

section \<open>Comparison before rounding\<close>

text \<open>
  C10. For every series of at least 15 bars the verdict is decided on the RSI as
  computed, and the result carries that RSI rounded to two decimals (a multiple of 1/100
  at most 1/200 away). So there is a series and a threshold for which the verdict is
  StrongBuy while the RSI in the result equals the threshold.
\<close>

theorem compare_then_round:
  assumes "yf_download symbol = Inr (Rows stock_data)" and "15 \<le> length stock_data"
  shows "(\<exists>price price_up volume_up v.
            evaluate_stock yf_download symbol rsi_threshold =
              Inr (symbol, price,
                   Some (py_round2 (calculate_rsi (map Close stock_data) 14 ! (length stock_data - 1))),
                   price_up, volume_up, v) \<and>
            (v = StrongBuy \<longleftrightarrow>
               f_gt (calculate_rsi (map Close stock_data) 14 ! (length stock_data - 1)) (Fin rsi_threshold)
               \<and> Close (stock_data ! (length stock_data - 2)) < Close (stock_data ! (length stock_data - 1))
               \<and> Volume (stock_data ! (length stock_data - 2)) < Volume (stock_data ! (length stock_data - 1)))) \<and>
         (\<bar>valof (py_round2 (Fin x)) - x\<bar> \<le> 1 / 200 \<and>
          (\<exists>k::int. valof (py_round2 (Fin x)) = of_int k / 100)) \<and>
         (\<exists>yf symbol' bars t r.
            yf symbol' = Inr (Rows bars) \<and> 15 \<le> length bars \<and>
            calculate_rsi (map Close bars) 14 ! (length bars - 1) = r \<and>
            f_gt r (Fin t) \<and>
            evaluate_stock yf symbol' t =
              Inr (symbol', Some (Fin 50002), Some (Fin t), Some True, Some True, StrongBuy))"
proof (intro conjI)
  show "\<exists>price price_up volume_up v.
            evaluate_stock yf_download symbol rsi_threshold =
              Inr (symbol, price,
                   Some (py_round2 (calculate_rsi (map Close stock_data) 14 ! (length stock_data - 1))),
                   price_up, volume_up, v) \<and>
            (v = StrongBuy \<longleftrightarrow>
               f_gt (calculate_rsi (map Close stock_data) 14 ! (length stock_data - 1)) (Fin rsi_threshold)
               \<and> Close (stock_data ! (length stock_data - 2)) < Close (stock_data ! (length stock_data - 1))
               \<and> Volume (stock_data ! (length stock_data - 2)) < Volume (stock_data ! (length stock_data - 1)))"
    using evaluate_body_enough [of yf_download symbol stock_data rsi_threshold, OF assms]
    by (simp add: evaluate_stock_def)
  show "\<bar>valof (py_round2 (Fin x)) - x\<bar> \<le> 1 / 200"
    using py_round2_close [of x] by (rule conjunct1)
  show "\<exists>k::int. valof (py_round2 (Fin x)) = of_int k / 100"
    using py_round2_close [of x] by (rule conjunct2)
  have "sample_provider ''AAA'' = Inr (Rows (bars_of sample_closes)) \<and>
     15 \<le> length (bars_of sample_closes) \<and>
     calculate_rsi (map Close (bars_of sample_closes)) 14 ! (length (bars_of sample_closes) - 1)
       = Fin (50001 / 1000) \<and>
     f_gt (Fin (50001 / 1000)) (Fin 50) \<and>
     evaluate_stock sample_provider ''AAA'' 50 =
       Inr (''AAA'', Some (Fin 50002), Some (Fin 50), Some True, Some True, StrongBuy)"
    by code_simp
  then show "\<exists>yf symbol' bars t r.
            yf symbol' = Inr (Rows bars) \<and> 15 \<le> length bars \<and>
            calculate_rsi (map Close bars) 14 ! (length bars - 1) = r \<and>
            f_gt r (Fin t) \<and>
            evaluate_stock yf symbol' t =
              Inr (symbol', Some (Fin 50002), Some (Fin t), Some True, Some True, StrongBuy)"
    by blast
qed

theorem compare_then_round_witness:
  "sample_provider ''AAA'' = Inr (Rows (bars_of sample_closes)) \<and>
   15 \<le> length (bars_of sample_closes) \<and>
   calculate_rsi (map Close (bars_of sample_closes)) 14 ! (length (bars_of sample_closes) - 1)
     = Fin (50001 / 1000) \<and>
   (\<exists>price price_up volume_up v.
      evaluate_stock sample_provider ''AAA'' 50 =
        Inr (''AAA'', price, Some (py_round2 (Fin (50001 / 1000))), price_up, volume_up, v) \<and>
      v = StrongBuy) \<and>
   py_round2 (Fin (50001 / 1000)) = Fin 50 \<and>
   \<bar>valof (py_round2 (Fin (50001 / 1000))) - 50001 / 1000\<bar> \<le> 1 / 200"
proof -
  have h1: "sample_provider ''AAA'' = Inr (Rows (bars_of sample_closes))" by code_simp
  have h2: "15 \<le> length (bars_of sample_closes)" by code_simp
  have r: "calculate_rsi (map Close (bars_of sample_closes)) 14 ! (length (bars_of sample_closes) - 1)
           = Fin (50001 / 1000)" by code_simp
  have c: "Close (bars_of sample_closes ! (length (bars_of sample_closes) - 2))
           < Close (bars_of sample_closes ! (length (bars_of sample_closes) - 1))" by code_simp
  have v: "Volume (bars_of sample_closes ! (length (bars_of sample_closes) - 2))
           < Volume (bars_of sample_closes ! (length (bars_of sample_closes) - 1))" by code_simp
  have p: "py_round2 (Fin (50001 / 1000)) = Fin 50" by code_simp
  note t = compare_then_round [of sample_provider "''AAA''" "bars_of sample_closes" 50 "50001 / 1000",
      OF h1 h2, unfolded r]
  from conjunct1 [OF t] c v
  have a: "\<exists>price price_up volume_up v.
      evaluate_stock sample_provider ''AAA'' 50 =
        Inr (''AAA'', price, Some (py_round2 (Fin (50001 / 1000))), price_up, volume_up, v) \<and>
      v = StrongBuy"
    by simp
  from conjunct1 [OF conjunct2 [OF t]]
  have b: "\<bar>valof (py_round2 (Fin (50001 / 1000))) - 50001 / 1000\<bar> \<le> 1 / 200"
    by (rule conjunct1)
  show ?thesis by (rule conjI [OF h1 conjI [OF h2 conjI [OF r conjI [OF a conjI [OF p b]]]]])
qed

section \<open>The run and the export\<close>

lemma panels_nth:
  assumes "evaluate_stock yf bad t = Inr (bad, None, None, None, None, SkippedFetchError msg)"
    and "\<forall>s. s \<noteq> bad \<longrightarrow> yf' s = yf s"
    and "\<forall>s\<in>set symbols. \<exists>r. evaluate_stock yf s t = Inr r"
    and "i < length symbols"
  shows "if symbols ! i = bad
         then map (\<lambda>s. (s, panel_of (projr (evaluate_stock yf s t)))) symbols ! i
              = (bad, Warning (SkippedFetchError msg))
         else (\<exists>r. evaluate_stock yf' (symbols ! i) t = Inr r \<and>
                 map (\<lambda>s. (s, panel_of (projr (evaluate_stock yf s t)))) symbols ! i
                 = (symbols ! i, panel_of r))"
proof (cases "symbols ! i = bad")
  case True
  with assms(1,4) show ?thesis by (simp add: panel_of_def)
next
  case False
  with assms(2) have "yf' (symbols ! i) = yf (symbols ! i)" by simp
  then have c: "evaluate_stock yf' (symbols ! i) t = evaluate_stock yf (symbols ! i) t"
    by (rule evaluate_stock_cong)
  from assms(3,4) obtain r where r: "evaluate_stock yf (symbols ! i) t = Inr r"
    using nth_mem by blast
  have "evaluate_stock yf' (symbols ! i) t = Inr r \<and>
        map (\<lambda>s. (s, panel_of (projr (evaluate_stock yf s t)))) symbols ! i = (symbols ! i, panel_of r)"
    using c r assms(4) by simp
  then have "\<exists>r. evaluate_stock yf' (symbols ! i) t = Inr r \<and>
        map (\<lambda>s. (s, panel_of (projr (evaluate_stock yf s t)))) symbols ! i = (symbols ! i, panel_of r)"
    by (rule exI)
  with False show ?thesis by simp
qed

text \<open>
  C6, as the program has it. An instance of \<open>Exception\<close> raised in the \<open>try\<close> block, by
  the fetch or by the computation on a frame the program cannot read, is caught inside
  \<open>evaluate_stock\<close> and returned as a SkippedFetchError verdict that carries the text of the
  error. In a run in which no exception of another kind is raised, every symbol of the
  list gets its panel, in the order of the list: the failing symbol a warning with that
  verdict, and every other symbol the panel it has under any provider that differs from
  this one at the failing symbol only.
\<close>

theorem exception_caught_and_isolated:
  assumes "evaluate_body yf bad t = Inl (Exception msg)"
    and "\<forall>s. s \<noteq> bad \<longrightarrow> yf' s = yf s"
    and "\<forall>s\<in>set symbols. \<forall>m. evaluate_body yf s t \<noteq> Inl (BaseOnly m)"
  shows "(yf bad = Inl (Exception msg) \<or>
          (\<exists>n. 15 \<le> n \<and> yf bad = Inr (Unreadable n (Exception msg)))) \<and>
    evaluate_stock yf bad t = Inr (bad, None, None, None, None, SkippedFetchError msg) \<and>
    (\<exists>panels strong_buy_data csv.
       main (Inr symbols) yf quote_cr fmt t = Inr (Finished panels strong_buy_data csv) \<and>
       map fst panels = symbols \<and>
       (\<forall>i<length symbols.
          if symbols ! i = bad then panels ! i = (bad, Warning (SkippedFetchError msg))
          else (\<exists>r. evaluate_stock yf' (symbols ! i) t = Inr r \<and>
                  panels ! i = (symbols ! i, panel_of r))))"
proof (intro conjI)
  show "yf bad = Inl (Exception msg) \<or>
          (\<exists>n. 15 \<le> n \<and> yf bad = Inr (Unreadable n (Exception msg)))"
    using assms(1) by (simp only: evaluate_body_raises_iff)
  show bad: "evaluate_stock yf bad t = Inr (bad, None, None, None, None, SkippedFetchError msg)"
    by (rule evaluate_stock_caught [OF assms(1)])
  have ret: "\<forall>s\<in>set symbols. \<exists>r. evaluate_stock yf s t = Inr r"
    using assms(3) by (simp only: evaluate_stock_returns_iff)
  let ?panels = "map (\<lambda>s. (s, panel_of (projr (evaluate_stock yf s t)))) symbols"
  obtain sb csv where m: "main (Inr symbols) yf quote_cr fmt t = Inr (Finished ?panels sb csv)"
    using main_finished [OF ret, of quote_cr fmt] by simp
  have p1: "map fst ?panels = symbols" by (simp add: comp_def)
  have p2: "\<forall>i<length symbols.
          if symbols ! i = bad then ?panels ! i = (bad, Warning (SkippedFetchError msg))
          else (\<exists>r. evaluate_stock yf' (symbols ! i) t = Inr r \<and>
                  ?panels ! i = (symbols ! i, panel_of r))"
    using panels_nth [OF bad assms(2) ret] by (intro allI impI)
  from m p1 p2 show "\<exists>panels strong_buy_data csv.
       main (Inr symbols) yf quote_cr fmt t = Inr (Finished panels strong_buy_data csv) \<and>
       map fst panels = symbols \<and>
       (\<forall>i<length symbols.
          if symbols ! i = bad then panels ! i = (bad, Warning (SkippedFetchError msg))
          else (\<exists>r. evaluate_stock yf' (symbols ! i) t = Inr r \<and>
                  panels ! i = (symbols ! i, panel_of r)))"
    by (intro exI conjI)
qed

theorem exception_caught_and_isolated_witness:
  "evaluate_body sample_provider ''BAD'' 50 = Inl (Exception ''no data for symbol'') \<and>
   evaluate_body sample_provider ''ODD'' 50 = Inl (Exception ''Close'') \<and>
   evaluate_stock sample_provider ''BAD'' 50 =
     Inr (''BAD'', None, None, None, None, SkippedFetchError ''no data for symbol'') \<and>
   evaluate_stock sample_provider ''ODD'' 50 =
     Inr (''ODD'', None, None, None, None, SkippedFetchError ''Close'') \<and>
   (\<exists>panels strong_buy_data csv.
      main (Inr [''AAA'', ''BAD'', ''ODD'']) sample_provider False (\<lambda>v. ''0'') 50
        = Inr (Finished panels strong_buy_data csv) \<and>
      map fst panels = [''AAA'', ''BAD'', ''ODD''] \<and>
      panels ! 1 = (''BAD'', Warning (SkippedFetchError ''no data for symbol'')) \<and>
      (\<exists>r. evaluate_stock
              (\<lambda>s. if s = ''BAD'' then Inr (Rows (bars_of sample_closes)) else sample_provider s)
              ''AAA'' 50 = Inr r \<and>
           panels ! 0 = (''AAA'', panel_of r)))"
proof -
  have h1: "evaluate_body sample_provider ''BAD'' 50 = Inl (Exception ''no data for symbol'')"
    by code_simp
  have o1: "evaluate_body sample_provider ''ODD'' 50 = Inl (Exception ''Close'')"
    by code_simp
  have a1: "evaluate_body sample_provider ''AAA'' 50 =
    Inr (''AAA'', Some (Fin 50002), Some (Fin 50), Some True, Some True, StrongBuy)"
    by code_simp
  have h2: "\<forall>s. s \<noteq> ''BAD'' \<longrightarrow>
      (\<lambda>s. if s = ''BAD'' then Inr (Rows (bars_of sample_closes)) else sample_provider s) s
      = sample_provider s"
    by simp
  have o2: "\<forall>s. s \<noteq> ''ODD'' \<longrightarrow> sample_provider s = sample_provider s" by simp
  have h3: "\<forall>s\<in>set [''AAA'', ''BAD'', ''ODD'']. \<forall>m. evaluate_body sample_provider s 50 \<noteq> Inl (BaseOnly m)"
    by (simp add: h1 o1 a1)
  note r = exception_caught_and_isolated [OF h1 h2 h3, of False "\<lambda>v. ''0''"]
  note q = exception_caught_and_isolated [OF o1 o2 h3, of False "\<lambda>v. ''0''"]
  from r have b: "evaluate_stock sample_provider ''BAD'' 50 =
     Inr (''BAD'', None, None, None, None, SkippedFetchError ''no data for symbol'')"
    by (rule conjunct1 [OF conjunct2])
  from q have o: "evaluate_stock sample_provider ''ODD'' 50 =
     Inr (''ODD'', None, None, None, None, SkippedFetchError ''Close'')"
    by (rule conjunct1 [OF conjunct2])
  from conjunct2 [OF conjunct2 [OF r]] obtain panels strong_buy_data csv where
    m: "main (Inr [''AAA'', ''BAD'', ''ODD'']) sample_provider False (\<lambda>v. ''0'') 50
        = Inr (Finished panels strong_buy_data csv)"
    and f: "map fst panels = [''AAA'', ''BAD'', ''ODD'']"
    and a: "\<forall>i<length [''AAA'', ''BAD'', ''ODD''].
          if [''AAA'', ''BAD'', ''ODD''] ! i = ''BAD''
          then panels ! i = (''BAD'', Warning (SkippedFetchError ''no data for symbol''))
          else (\<exists>r. evaluate_stock
                  (\<lambda>s. if s = ''BAD'' then Inr (Rows (bars_of sample_closes)) else sample_provider s)
                  ([''AAA'', ''BAD'', ''ODD''] ! i) 50 = Inr r \<and>
                  panels ! i = ([''AAA'', ''BAD'', ''ODD''] ! i, panel_of r))"
    by (elim conjE exE) (rule that)
  from a have p1: "panels ! 1 = (''BAD'', Warning (SkippedFetchError ''no data for symbol''))"
    by (drule_tac x = 1 in spec) simp
  from a have p0: "\<exists>r. evaluate_stock
              (\<lambda>s. if s = ''BAD'' then Inr (Rows (bars_of sample_closes)) else sample_provider s)
              ''AAA'' 50 = Inr r \<and>
           panels ! 0 = (''AAA'', panel_of r)"
    by (drule_tac x = 0 in spec) simp
  from conjI [OF m conjI [OF f conjI [OF p1 p0]]] have e: "\<exists>panels strong_buy_data csv.
      main (Inr [''AAA'', ''BAD'', ''ODD'']) sample_provider False (\<lambda>v. ''0'') 50
        = Inr (Finished panels strong_buy_data csv) \<and>
      map fst panels = [''AAA'', ''BAD'', ''ODD''] \<and>
      panels ! 1 = (''BAD'', Warning (SkippedFetchError ''no data for symbol'')) \<and>
      (\<exists>r. evaluate_stock
              (\<lambda>s. if s = ''BAD'' then Inr (Rows (bars_of sample_closes)) else sample_provider s)
              ''AAA'' 50 = Inr r \<and>
           panels ! 0 = (''AAA'', panel_of r))"
    by (intro exI)
  show ?thesis by (rule conjI [OF h1 conjI [OF o1 conjI [OF b conjI [OF o e]]]])
qed

text \<open>
  An exception that is no instance of \<open>Exception\<close>, here the interrupt from the keyboard
  during a fetch, is not caught: it leaves \<open>evaluate_stock\<close> and ends the run, also for the
  symbols after it.
\<close>

theorem escaping_exception_counterexample:
  "sample_provider ''INT'' = Inl (BaseOnly ''KeyboardInterrupt'') \<and>
   evaluate_body sample_provider ''INT'' 50 = Inl (BaseOnly ''KeyboardInterrupt'') \<and>
   evaluate_stock sample_provider ''INT'' 50 = Inl (BaseOnly ''KeyboardInterrupt'') \<and>
   main (Inr [''AAA'', ''INT'', ''FLAT'']) sample_provider False (\<lambda>v. ''0'') 50
     = Inl (BaseOnly ''KeyboardInterrupt'')"
  by code_simp

text \<open>
  C9. When the run ends with a non-empty list of strong buys, the exported CSV is the
  header line \<open>Symbol,Price,RSI\<close> followed by one line per strong buy, each of the three
  cells symbol, price and RSI with no index column before them, and the strong buys are
  the symbols with verdict StrongBuy in the order of the symbol list.
\<close>

theorem csv_export_rows:
  assumes "main (Inr symbols) yf quote_cr fmt t = Inr (Finished panels strong_buy_data csv)"
    and "strong_buy_data \<noteq> []"
  shows "csv = Some (''Symbol,Price,RSI'' #
           map (\<lambda>(symbol, price, rsi). csv_field quote_cr symbol @ '','' @ fmt price @ '','' @ fmt rsi)
             strong_buy_data) \<and>
         map fst strong_buy_data = filter (\<lambda>s. returns_verdict yf t s StrongBuy) symbols"
proof -
  let ?sb = "filter (\<lambda>s. returns_verdict yf t s StrongBuy) symbols"
  let ?rows = "map (\<lambda>s. (s, price_of (projr (evaluate_stock yf s t)),
                            rsi_of (projr (evaluate_stock yf s t)))) ?sb"
  have ret: "\<forall>s\<in>set symbols. \<exists>r. evaluate_stock yf s t = Inr r"
    by (rule main_finished_only_if [OF assms(1)])
  from assms(1) have sb: "strong_buy_data = ?rows"
    and csv: "csv = (if ?sb \<noteq> [] then Some (to_csv False quote_cr fmt ?rows) else None)"
    unfolding main_finished [OF ret] by simp_all
  from sb assms(2) have ne: "?sb \<noteq> []" by auto
  have c: "csv = Some (to_csv False quote_cr fmt strong_buy_data)"
    using csv ne sb by simp
  have m: "map fst strong_buy_data = ?sb"
    unfolding sb by (simp add: comp_def)
  from c m show ?thesis by (simp only: to_csv_no_index)
qed

theorem csv_export_rows_witness:
  "main (Inr [''AAA'', ''BAD'', ''FLAT'', ''AAA'']) sample_provider False (\<lambda>v. ''0'') 50 =
     Inr (Finished
       [(''AAA'', Analysis (Some (Fin 50002)) (Some (Fin 50)) (Some True) (Some True) StrongBuy),
        (''BAD'', Warning (SkippedFetchError ''no data for symbol'')),
        (''FLAT'', Analysis (Some (Fin 5)) (Some NaN) (Some False) (Some False) NotStrongBuy),
        (''AAA'', Analysis (Some (Fin 50002)) (Some (Fin 50)) (Some True) (Some True) StrongBuy)]
       [(''AAA'', Some (Fin 50002), Some (Fin 50)), (''AAA'', Some (Fin 50002), Some (Fin 50))]
       (Some [''Symbol,Price,RSI'', ''AAA,0,0'', ''AAA,0,0''])) \<and>
   [(''AAA'', Some (Fin 50002), Some (Fin 50)), (''AAA'', Some (Fin 50002), Some (Fin 50))] \<noteq> [] \<and>
   map fst [(''AAA'', Some (Fin 50002), Some (Fin 50)), (''AAA'', Some (Fin 50002), Some (Fin 50))] =
     filter (\<lambda>s. returns_verdict sample_provider 50 s StrongBuy)
       [''AAA'', ''BAD'', ''FLAT'', ''AAA'']"
proof -
  have h1: "main (Inr [''AAA'', ''BAD'', ''FLAT'', ''AAA'']) sample_provider False (\<lambda>v. ''0'') 50 =
     Inr (Finished
       [(''AAA'', Analysis (Some (Fin 50002)) (Some (Fin 50)) (Some True) (Some True) StrongBuy),
        (''BAD'', Warning (SkippedFetchError ''no data for symbol'')),
        (''FLAT'', Analysis (Some (Fin 5)) (Some NaN) (Some False) (Some False) NotStrongBuy),
        (''AAA'', Analysis (Some (Fin 50002)) (Some (Fin 50)) (Some True) (Some True) StrongBuy)]
       [(''AAA'', Some (Fin 50002), Some (Fin 50)), (''AAA'', Some (Fin 50002), Some (Fin 50))]
       (Some [''Symbol,Price,RSI'', ''AAA,0,0'', ''AAA,0,0'']))"
    by code_simp
  have h2: "[(''AAA'', Some (Fin 50002), Some (Fin 50)), (''AAA'', Some (Fin 50002), Some (Fin 50))] \<noteq> []"
    by simp
  note r = csv_export_rows [OF h1 h2]
  show ?thesis by (rule conjI [OF h1 conjI [OF h2 conjunct2 [OF r]]])
qed

end
